theory Spec2Isabelle
  imports Complex_Main "HOL-Library.Product_Lexorder"
begin

section \<open>Python values\<close>

text \<open>
  The exceptions raised in \<^verbatim>\<open>flavio/statistics/probability.py\<close>, by the module itself or by
  the Python, NumPy and SciPy primitives it calls. A computation that may raise returns
  \<open>error + 'a\<close>, with \<open>Inl\<close> for the exception.
\<close>

datatype error =
  ValueError | IndexError | AssertionError | ZeroDivisionError | TypeError | AttributeError
  | LinAlgError

definition bindE :: "error + 'a \<Rightarrow> ('a \<Rightarrow> error + 'b) \<Rightarrow> error + 'b" where
  "bindE m f = (case m of Inl e \<Rightarrow> Inl e | Inr v \<Rightarrow> f v)"

fun sequenceE :: "(error + 'a) list \<Rightarrow> error + 'a list" where
  "sequenceE [] = Inr []"
| "sequenceE (m # ms) =
     (case m of Inl e \<Rightarrow> Inl e
      | Inr v \<Rightarrow> (case sequenceE ms of Inl e \<Rightarrow> Inl e | Inr vs \<Rightarrow> Inr (v # vs)))"

text \<open>
  A central value is a Python number. \<^verbatim>\<open>convolve_distributions\<close> asserts
  \<^verbatim>\<open>isinstance(central_value, float)\<close>, so the model keeps the difference between a float and
  an int; \<^verbatim>\<open>==\<close> compares the two by value.
\<close>

datatype pynum = PyFloat real | PyInt int

fun num_val :: "pynum \<Rightarrow> real" where
  "num_val (PyFloat r) = r"
| "num_val (PyInt i) = real_of_int i"

fun isinstance_float :: "pynum \<Rightarrow> bool" where
  "isinstance_float (PyFloat r) = True"
| "isinstance_float (PyInt i) = False"

text \<open>
  A double as NumPy computes with it: the finite values are idealised as the reals, and the
  three special values are kept, since the module produces \<^verbatim>\<open>-np.inf\<close> on purpose and NumPy
  divides by zero without raising.
\<close>

datatype pyfloat = NaN | NegInf | Fin real | PosInf

fun fl_neg :: "pyfloat \<Rightarrow> pyfloat" where
  "fl_neg NaN = NaN"
| "fl_neg NegInf = PosInf"
| "fl_neg PosInf = NegInf"
| "fl_neg (Fin a) = Fin (- a)"

fun fl_add :: "pyfloat \<Rightarrow> pyfloat \<Rightarrow> pyfloat" where
  "fl_add NaN b = NaN"
| "fl_add a NaN = NaN"
| "fl_add (Fin a) (Fin b) = Fin (a + b)"
| "fl_add (Fin a) b = b"
| "fl_add a (Fin b) = a"
| "fl_add NegInf NegInf = NegInf"
| "fl_add PosInf PosInf = PosInf"
| "fl_add NegInf PosInf = NaN"
| "fl_add PosInf NegInf = NaN"

definition fl_sub :: "pyfloat \<Rightarrow> pyfloat \<Rightarrow> pyfloat" where
  "fl_sub a b = fl_add a (fl_neg b)"

fun fl_sign :: "pyfloat \<Rightarrow> real" where
  "fl_sign NegInf = - 1"
| "fl_sign PosInf = 1"
| "fl_sign (Fin a) = sgn a"
| "fl_sign NaN = 0"

fun fl_mul :: "pyfloat \<Rightarrow> pyfloat \<Rightarrow> pyfloat" where
  "fl_mul NaN b = NaN"
| "fl_mul a NaN = NaN"
| "fl_mul (Fin a) (Fin b) = Fin (a * b)"
| "fl_mul a b =
     (if fl_sign a * fl_sign b = 0 then NaN
      else if fl_sign a * fl_sign b > 0 then PosInf else NegInf)"

fun fl_div :: "pyfloat \<Rightarrow> pyfloat \<Rightarrow> pyfloat" where
  "fl_div NaN b = NaN"
| "fl_div a NaN = NaN"
| "fl_div (Fin a) (Fin b) =
     (if b \<noteq> 0 then Fin (a / b)
      else if a = 0 then NaN else if a > 0 then PosInf else NegInf)"
| "fl_div (Fin a) b = Fin 0"
| "fl_div a (Fin b) =
     (if fl_sign a * (if b < 0 then - 1 else 1) > 0 then PosInf else NegInf)"
| "fl_div a b = NaN"

text \<open>IEEE comparison: every comparison with NaN is false.\<close>

fun fl_less :: "pyfloat \<Rightarrow> pyfloat \<Rightarrow> bool" where
  "fl_less NaN b = False"
| "fl_less a NaN = False"
| "fl_less (Fin a) (Fin b) = (a < b)"
| "fl_less NegInf b = (b \<noteq> NegInf)"
| "fl_less a PosInf = (a \<noteq> PosInf)"
| "fl_less a b = False"

text \<open>\<^verbatim>\<open>np.exp\<close> and \<^verbatim>\<open>np.log\<close> warn and return a special value where \<^verbatim>\<open>math.log\<close> raises.\<close>

fun np_exp :: "pyfloat \<Rightarrow> pyfloat" where
  "np_exp NaN = NaN"
| "np_exp NegInf = Fin 0"
| "np_exp PosInf = PosInf"
| "np_exp (Fin a) = Fin (exp a)"

fun np_log :: "pyfloat \<Rightarrow> pyfloat" where
  "np_log NaN = NaN"
| "np_log NegInf = NaN"
| "np_log PosInf = PosInf"
| "np_log (Fin a) = (if a > 0 then Fin (ln a) else if a = 0 then NegInf else NaN)"

fun math_log :: "pyfloat \<Rightarrow> error + pyfloat" where
  "math_log NaN = Inr NaN"
| "math_log NegInf = Inl ValueError"
| "math_log PosInf = Inr PosInf"
| "math_log (Fin a) = (if a > 0 then Inr (Fin (ln a)) else Inl ValueError)"

text \<open>
  An argument or result that is either a single number or a one-dimensional NumPy array.
\<close>

datatype 'a ndarray = Scalar 'a | Array "'a list"

text \<open>
  \<^verbatim>\<open>np.vectorize(f)(x)\<close>: \<open>f\<close> on the single value, or on each element; an exception of \<open>f\<close>
  propagates, and NumPy refuses an input of size 0 when no output type was given.
\<close>

definition vectorize :: "('a \<Rightarrow> error + 'b) \<Rightarrow> 'a ndarray \<Rightarrow> error + 'b ndarray" where
  "vectorize f x =
     (case x of
        Scalar v \<Rightarrow> bindE (f v) (\<lambda>r. Inr (Scalar r))
      | Array xs \<Rightarrow>
          (if xs = [] then Inl ValueError
           else bindE (sequenceE (map f xs)) (\<lambda>rs. Inr (Array rs))))"

text \<open>A broadcasting NumPy or SciPy function, which never raises.\<close>

fun broadcast :: "('a \<Rightarrow> 'b) \<Rightarrow> 'a ndarray \<Rightarrow> 'b ndarray" where
  "broadcast f (Scalar v) = Scalar (f v)"
| "broadcast f (Array xs) = Array (map f xs)"

fun shape :: "'a ndarray \<Rightarrow> nat option" where
  "shape (Scalar v) = None"
| "shape (Array xs) = Some (length xs)"

section \<open>The distribution classes\<close>

text \<open>
  \<^verbatim>\<open>ProbabilityDistribution\<close>: the base class holds the central value and the support. The
  univariate classes instantiate it with a Python number and a pair of bounds.
\<close>

record ('c, 's) ProbabilityDistribution =
  central_value :: 'c
  support :: 's

definition get_central :: "('c, 's, 'z) ProbabilityDistribution_scheme \<Rightarrow> 'c" where
  "get_central self = central_value self"

subsection \<open>UniformDistribution\<close>

record UniformDistribution = "(pynum, real \<times> real) ProbabilityDistribution" +
  half_range :: real
  range' :: "real \<times> real"

definition UniformDistribution_init :: "pynum \<Rightarrow> real \<Rightarrow> UniformDistribution" where
  "UniformDistribution_init c h =
     \<lparr>central_value = c, support = (num_val c - h, num_val c + h),
      half_range = h, range' = (num_val c - h, num_val c + h)\<rparr>"

definition Uniform__logpdf :: "UniformDistribution \<Rightarrow> real \<Rightarrow> error + pyfloat" where
  "Uniform__logpdf self x =
     (if x < fst (range' self) \<or> x \<ge> snd (range' self) then Inr NegInf
      else bindE (math_log (Fin (2 * half_range self))) (\<lambda>l. Inr (fl_neg l)))"

definition Uniform_logpdf :: "UniformDistribution \<Rightarrow> real ndarray \<Rightarrow> error + pyfloat ndarray" where
  "Uniform_logpdf self x = vectorize (Uniform__logpdf self) x"

subsection \<open>DeltaDistribution\<close>

type_synonym DeltaDistribution = "(pynum, real \<times> real) ProbabilityDistribution"

definition DeltaDistribution_init :: "pynum \<Rightarrow> DeltaDistribution" where
  "DeltaDistribution_init c =
     \<lparr>central_value = c, support = (num_val c, num_val c)\<rparr>"

text \<open>
  The truth value of \<^verbatim>\<open>x == self.central_value\<close> in an \<^verbatim>\<open>if\<close>: on an array the comparison is
  element-wise, and NumPy raises ValueError for the truth value of an array of more than one
  element; an array of one element has the truth value of that element, an empty one is
  false.
\<close>

definition truth_of_eq :: "real ndarray \<Rightarrow> real \<Rightarrow> error + bool" where
  "truth_of_eq x c =
     (case x of
        Scalar v \<Rightarrow> Inr (v = c)
      | Array xs \<Rightarrow>
          (case xs of [] \<Rightarrow> Inr False
           | v # vs \<Rightarrow> (if vs = [] then Inr (v = c) else Inl ValueError)))"

definition Delta_logpdf :: "DeltaDistribution \<Rightarrow> real ndarray \<Rightarrow> error + pyfloat ndarray" where
  "Delta_logpdf self x =
     bindE (truth_of_eq x (num_val (central_value self)))
       (\<lambda>b. if b then Inr (Scalar (Fin 0)) else Inr (Scalar NegInf))"

subsection \<open>The pseudo-random source\<close>

text \<open>
  \<^verbatim>\<open>np.random\<close> is a process-wide generator. Its output is an input of the model: draw
  \<open>i\<close> of a call is \<open>random_sample g i\<close> for a uniform number in \<open>[0, 1)\<close> and
  \<open>standard_normal g i\<close> for a standard normal number. With \<^verbatim>\<open>size=None\<close> the NumPy
  routines return one number, with \<^verbatim>\<open>size=n\<close> an array of \<open>n\<close> numbers.
\<close>

record generator =
  random_sample :: "nat \<Rightarrow> real"
  standard_normal :: "nat \<Rightarrow> real"

definition draws :: "(nat \<Rightarrow> real) \<Rightarrow> nat option \<Rightarrow> real ndarray" where
  "draws f sz = (case sz of None \<Rightarrow> Scalar (f 0) | Some n \<Rightarrow> Array (map f [0..<n]))"

definition np_random_uniform :: "generator \<Rightarrow> real \<Rightarrow> real \<Rightarrow> nat option \<Rightarrow> real ndarray" where
  "np_random_uniform g low high sz = draws (\<lambda>i. low + (high - low) * random_sample g i) sz"

definition np_random_normal ::
  "generator \<Rightarrow> real \<Rightarrow> real \<Rightarrow> nat option \<Rightarrow> error + real ndarray" where
  "np_random_normal g loc scale sz =
     (if scale < 0 then Inl ValueError
      else Inr (draws (\<lambda>i. loc + scale * standard_normal g i) sz))"

subsection \<open>UniformDistribution and DeltaDistribution: sampling\<close>

definition Uniform_get_random ::
  "UniformDistribution \<Rightarrow> generator \<Rightarrow> nat option \<Rightarrow> error + real ndarray" where
  "Uniform_get_random self g sz =
     Inr (np_random_uniform g (fst (range' self)) (snd (range' self)) sz)"

definition Delta_get_random ::
  "DeltaDistribution \<Rightarrow> generator \<Rightarrow> nat option \<Rightarrow> error + real ndarray" where
  "Delta_get_random self g sz =
     (case sz of
        None \<Rightarrow> Inr (Scalar (num_val (central_value self)))
      | Some n \<Rightarrow> Inr (Array (map (\<lambda>one. num_val (central_value self) * one) (replicate n 1))))"

subsection \<open>The normal density of SciPy\<close>

text \<open>
  \<^verbatim>\<open>scipy.stats.norm.pdf\<close> and \<^verbatim>\<open>logpdf\<close> with location and scale: the textbook density, and
  \<^verbatim>\<open>nan\<close> where the scale is not positive.
\<close>

definition norm_pdf :: "real \<Rightarrow> real \<Rightarrow> real \<Rightarrow> pyfloat" where
  "norm_pdf x loc scale =
     (if scale > 0 then Fin (exp (- ((x - loc) / scale)\<^sup>2 / 2) / sqrt (2 * pi) / scale)
      else NaN)"

definition norm_logpdf :: "real \<Rightarrow> real \<Rightarrow> real \<Rightarrow> pyfloat" where
  "norm_logpdf x loc scale =
     (if scale > 0 then Fin (- ((x - loc) / scale)\<^sup>2 / 2 - ln (sqrt (2 * pi)) - ln scale)
      else NaN)"

subsection \<open>NormalDistribution\<close>

record NormalDistribution = "(pynum, real \<times> real) ProbabilityDistribution" +
  standard_deviation :: real

definition NormalDistribution_init :: "pynum \<Rightarrow> real \<Rightarrow> NormalDistribution" where
  "NormalDistribution_init c sd =
     \<lparr>central_value = c, support = (num_val c - 6 * sd, num_val c + 6 * sd),
      standard_deviation = sd\<rparr>"

definition Normal_get_random ::
  "NormalDistribution \<Rightarrow> generator \<Rightarrow> nat option \<Rightarrow> error + real ndarray" where
  "Normal_get_random self g sz =
     np_random_normal g (num_val (central_value self))
       (NormalDistribution.standard_deviation self) sz"

definition Normal_logpdf :: "NormalDistribution \<Rightarrow> real ndarray \<Rightarrow> error + pyfloat ndarray" where
  "Normal_logpdf self x =
     Inr (broadcast (\<lambda>v. norm_logpdf v (num_val (central_value self))
                            (NormalDistribution.standard_deviation self)) x)"

subsection \<open>AsymmetricNormalDistribution\<close>

record AsymmetricNormalDistribution = "(pynum, real \<times> real) ProbabilityDistribution" +
  right_deviation :: real
  left_deviation :: real

definition AsymmetricNormalDistribution_init ::
  "pynum \<Rightarrow> real \<Rightarrow> real \<Rightarrow> error + AsymmetricNormalDistribution" where
  "AsymmetricNormalDistribution_init c right left =
     (if right < 0 \<or> left < 0 then Inl ValueError
      else Inr \<lparr>central_value = c, support = (num_val c - 6 * left, num_val c + 6 * right),
                right_deviation = right, left_deviation = left\<rparr>)"

text \<open>
  \<^verbatim>\<open>get_random\<close> takes \<^verbatim>\<open>size\<close> and never reads it: each of the three draws is made with
  the default size, and the result is one number. The quotient of the two deviations is a
  Python division, which raises when both are zero.
\<close>

definition AsymmetricNormal_get_random ::
  "AsymmetricNormalDistribution \<Rightarrow> generator \<Rightarrow> nat option \<Rightarrow> error + real ndarray" where
  "AsymmetricNormal_get_random self g sz =
     (let r = random_sample g 0 in
      if right_deviation self + left_deviation self = 0 then Inl ZeroDivisionError
      else
        let a = \<bar>left_deviation self / (right_deviation self + left_deviation self)\<bar> in
        if r > a then
          (if right_deviation self < 0 then Inl ValueError
           else Inr (Scalar (num_val (central_value self)
                               + \<bar>0 + right_deviation self * standard_normal g 0\<bar>)))
        else
          (if left_deviation self < 0 then Inl ValueError
           else Inr (Scalar (num_val (central_value self)
                               - \<bar>0 + left_deviation self * standard_normal g 0\<bar>))))"

definition AsymmetricNormal__logpdf ::
  "AsymmetricNormalDistribution \<Rightarrow> real \<Rightarrow> error + pyfloat" where
  "AsymmetricNormal__logpdf self x =
     (let c = num_val (central_value self);
          p_right = norm_pdf c c (right_deviation self);
          p_left = norm_pdf c c (left_deviation self)
      in if x < c then
           (let r = fl_div (fl_mul (Fin 2) p_right) (fl_add p_left p_right)
            in bindE (math_log r) (\<lambda>l. Inr (fl_add l (norm_logpdf x c (left_deviation self)))))
         else
           (let r = fl_div (fl_mul (Fin 2) p_left) (fl_add p_left p_right)
            in bindE (math_log r) (\<lambda>l. Inr (fl_add l (norm_logpdf x c (right_deviation self))))))"

definition AsymmetricNormal_logpdf ::
  "AsymmetricNormalDistribution \<Rightarrow> real ndarray \<Rightarrow> error + pyfloat ndarray" where
  "AsymmetricNormal_logpdf self x = vectorize (AsymmetricNormal__logpdf self) x"

subsection \<open>HalfNormalDistribution and GaussianUpperLimit\<close>

record HalfNormalDistribution = "(pynum, real \<times> real) ProbabilityDistribution" +
  standard_deviation :: real

text \<open>The support is \<^verbatim>\<open>sorted((c, c + 6*sd))\<close>: the two bounds in increasing order.\<close>

definition HalfNormalDistribution_init :: "pynum \<Rightarrow> real \<Rightarrow> HalfNormalDistribution" where
  "HalfNormalDistribution_init c sd =
     \<lparr>central_value = c,
      support = (min (num_val c) (num_val c + 6 * sd), max (num_val c) (num_val c + 6 * sd)),
      standard_deviation = sd\<rparr>"

definition HalfNormal_get_random ::
  "'z HalfNormalDistribution_scheme \<Rightarrow> generator \<Rightarrow> nat option \<Rightarrow> error + real ndarray" where
  "HalfNormal_get_random self g sz =
     bindE (np_random_normal g 0 \<bar>HalfNormalDistribution.standard_deviation self\<bar> sz)
       (\<lambda>n. Inr (broadcast
                   (\<lambda>v. num_val (central_value self)
                          + sgn (HalfNormalDistribution.standard_deviation self) * \<bar>v\<bar>) n))"

definition HalfNormal__logpdf :: "'z HalfNormalDistribution_scheme \<Rightarrow> real \<Rightarrow> error + pyfloat" where
  "HalfNormal__logpdf self x =
     (if sgn (HalfNormalDistribution.standard_deviation self) * (x - num_val (central_value self)) < 0
      then Inr NegInf
      else bindE (math_log (Fin 2))
             (\<lambda>l. Inr (fl_add l (norm_logpdf x (num_val (central_value self))
                                    \<bar>HalfNormalDistribution.standard_deviation self\<bar>))))"

definition HalfNormal_logpdf ::
  "'z HalfNormalDistribution_scheme \<Rightarrow> real ndarray \<Rightarrow> error + pyfloat ndarray" where
  "HalfNormal_logpdf self x = vectorize (HalfNormal__logpdf self) x"

record GaussianUpperLimit = HalfNormalDistribution +
  limit :: real
  confidence_level :: real

text \<open>
  \<^verbatim>\<open>get_standard_deviation\<close>. The quantile function \<^verbatim>\<open>scipy.stats.norm.ppf\<close> of the standard
  normal distribution is the parameter \<open>ppf\<close>.
\<close>

definition get_standard_deviation :: "(real \<Rightarrow> real) \<Rightarrow> real \<Rightarrow> real \<Rightarrow> real" where
  "get_standard_deviation ppf lmt cl = lmt * ppf (0.5 + cl / 2)"

definition GaussianUpperLimit_init ::
  "(real \<Rightarrow> real) \<Rightarrow> real \<Rightarrow> real \<Rightarrow> error + GaussianUpperLimit" where
  "GaussianUpperLimit_init ppf lmt cl =
     (if cl > 1 \<or> cl < 0 then Inl ValueError
      else Inr (HalfNormalDistribution.extend
                  (HalfNormalDistribution_init (PyInt 0) (get_standard_deviation ppf lmt cl))
                  (GaussianUpperLimit.fields lmt cl)))"

subsection \<open>NumPy and SciPy array routines\<close>

text \<open>\<^verbatim>\<open>np.linspace(start, stop, num)\<close>: \<open>num\<close> evenly spaced points, the last one \<open>stop\<close>.\<close>

definition linspace :: "real \<Rightarrow> real \<Rightarrow> nat \<Rightarrow> real list" where
  "linspace start stop num =
     (if num = 0 then []
      else if num = 1 then [start]
      else map (\<lambda>i. start + real i * ((stop - start) / real (num - 1))) [0..<num - 1] @ [stop])"

definition py_sum :: "pyfloat list \<Rightarrow> pyfloat" where
  "py_sum ys = foldl fl_add (Fin 0) ys"

fun cumsum_from :: "pyfloat \<Rightarrow> pyfloat list \<Rightarrow> pyfloat list" where
  "cumsum_from acc [] = []"
| "cumsum_from acc (y # ys) = fl_add acc y # cumsum_from (fl_add acc y) ys"

definition np_cumsum :: "pyfloat list \<Rightarrow> pyfloat list" where
  "np_cumsum ys = cumsum_from (Fin 0) ys"

text \<open>
  \<^verbatim>\<open>np.argmax\<close>: the index of the first maximum, or of the first NaN when there is one; it
  raises on an empty array.
\<close>

fun argmax_from :: "nat \<Rightarrow> pyfloat \<Rightarrow> nat \<Rightarrow> pyfloat list \<Rightarrow> nat" where
  "argmax_from bi bv i [] = bi"
| "argmax_from bi bv i (y # ys) =
     (if bv = NaN then bi
      else if y = NaN \<or> fl_less bv y then argmax_from i y (Suc i) ys
      else argmax_from bi bv (Suc i) ys)"

definition np_argmax :: "pyfloat ndarray \<Rightarrow> error + nat" where
  "np_argmax y =
     (case y of
        Scalar v \<Rightarrow> Inr 0
      | Array ys \<Rightarrow> (case ys of [] \<Rightarrow> Inl ValueError | v # vs \<Rightarrow> Inr (argmax_from 0 v 1 vs)))"

text \<open>Item assignment \<^verbatim>\<open>a[0] = v\<close> and \<^verbatim>\<open>a[-1] = v\<close>, which raise on an empty array.\<close>

definition set_first :: "'a list \<Rightarrow> 'a \<Rightarrow> error + 'a list" where
  "set_first a v = (if a = [] then Inl IndexError else Inr (a[0 := v]))"

definition set_last :: "'a list \<Rightarrow> 'a \<Rightarrow> error + 'a list" where
  "set_last a v = (if a = [] then Inl IndexError else Inr (a[length a - 1 := v]))"

text \<open>
  \<^verbatim>\<open>scipy.interpolate.interp1d\<close>, linear. The constructor refuses arrays of different length
  and arrays of fewer than two points, and sorts the points by \<open>x\<close> (NumPy sorts NaN last).
  A call interpolates between the two neighbours of the new point; outside the range of
  \<open>x\<close> it raises when \<^verbatim>\<open>bounds_error\<close> is set and returns \<^verbatim>\<open>fill_value\<close> otherwise.
\<close>

record interp1d =
  ix :: "pyfloat list"
  iy :: "pyfloat list"
  fill_value :: pyfloat
  bounds_error :: bool

fun fl_key :: "pyfloat \<Rightarrow> nat \<times> real" where
  "fl_key NegInf = (0, 0)"
| "fl_key (Fin a) = (1, a)"
| "fl_key PosInf = (2, 0)"
| "fl_key NaN = (3, 0)"

definition interp1d_init ::
  "pyfloat list \<Rightarrow> pyfloat list \<Rightarrow> pyfloat \<Rightarrow> bool \<Rightarrow> error + interp1d" where
  "interp1d_init x y fill be =
     (if length x \<noteq> length y \<or> length x < 2 then Inl ValueError
      else let s = sort_key (\<lambda>p. fl_key (fst p)) (zip x y)
           in Inr \<lparr>ix = map fst s, iy = map snd s, fill_value = fill, bounds_error = be\<rparr>)"

definition interp1d_call1 :: "interp1d \<Rightarrow> real \<Rightarrow> error + pyfloat" where
  "interp1d_call1 self x_new =
     (let i = length (filter (\<lambda>a. fl_key a < fl_key (Fin x_new)) (ix self));
          hi = min (max i 1) (length (ix self) - 1);
          lo = hi - 1;
          slope = fl_div (fl_sub (iy self ! hi) (iy self ! lo)) (fl_sub (ix self ! hi) (ix self ! lo));
          y_new = fl_add (fl_mul slope (fl_sub (Fin x_new) (ix self ! lo))) (iy self ! lo)
      in if fl_less (Fin x_new) (hd (ix self)) \<or> fl_less (last (ix self)) (Fin x_new)
         then (if bounds_error self then Inl ValueError else Inr (fill_value self))
         else Inr y_new)"

definition interp1d_call :: "interp1d \<Rightarrow> real ndarray \<Rightarrow> error + pyfloat ndarray" where
  "interp1d_call self x =
     (case x of
        Scalar v \<Rightarrow> bindE (interp1d_call1 self v) (\<lambda>r. Inr (Scalar r))
      | Array xs \<Rightarrow> bindE (sequenceE (map (interp1d_call1 self) xs)) (\<lambda>rs. Inr (Array rs)))"

text \<open>
  \<^verbatim>\<open>scipy.signal.fftconvolve(y, y1, 'same')\<close>: the discrete convolution of the two arrays, cut
  to the length of the first one around its centre. The transform mixes all entries, so one
  entry that is not finite makes every entry of the result NaN.
\<close>

fun the_fin :: "pyfloat \<Rightarrow> real" where
  "the_fin (Fin a) = a"
| "the_fin a = 0"

fun is_fin :: "pyfloat \<Rightarrow> bool" where
  "is_fin (Fin a) = True"
| "is_fin a = False"

definition convolve_full :: "real list \<Rightarrow> real list \<Rightarrow> real list" where
  "convolve_full a b =
     map (\<lambda>k. sum_list (map (\<lambda>i. if i \<le> k \<and> k - i < length b then a ! i * b ! (k - i) else 0)
                              [0..<length a]))
         [0..<length a + length b - 1]"

definition fftconvolve_same :: "pyfloat list \<Rightarrow> pyfloat list \<Rightarrow> pyfloat list" where
  "fftconvolve_same y y1 =
     (if y = [] \<or> y1 = [] then []
      else if list_all is_fin y \<and> list_all is_fin y1 then
        (let full = convolve_full (map the_fin y) (map the_fin y1)
         in map Fin (take (length y) (drop ((length full - length y) div 2) full)))
      else replicate (length y) NaN)"

subsection \<open>NumericalDistribution\<close>

record NumericalDistribution = "(pynum, real \<times> real) ProbabilityDistribution" +
  logpdf_interp :: interp1d
  ppf_interp :: interp1d

text \<open>
  The constructor. With a central value it checks \<^verbatim>\<open>x[0] <= central_value <= x[-1]\<close>;
  without one it takes the grid point of the largest \<open>y\<close>. Nothing else about the grid is
  checked by the constructor itself. \<^verbatim>\<open>sum(y)\<close> needs an array.
\<close>

definition NumericalDistribution_base ::
  "real list \<Rightarrow> pyfloat ndarray \<Rightarrow> pynum option
     \<Rightarrow> error + (pynum, real \<times> real) ProbabilityDistribution" where
  "NumericalDistribution_base x y cv =
     (case cv of
        Some c \<Rightarrow>
          (if x = [] then Inl IndexError
           else if hd x \<le> num_val c \<and> num_val c \<le> last x
             then Inr \<lparr>central_value = c, support = (hd x, last x)\<rparr>
           else Inl ValueError)
      | None \<Rightarrow>
          bindE (np_argmax y)
            (\<lambda>i. if i < length x
                  then Inr \<lparr>central_value = PyFloat (x ! i), support = (hd x, last x)\<rparr>
                  else Inl IndexError))"

definition NumericalDistribution_init ::
  "real list \<Rightarrow> pyfloat ndarray \<Rightarrow> pynum option \<Rightarrow> error + NumericalDistribution" where
  "NumericalDistribution_init x y cv =
     bindE (NumericalDistribution_base x y cv)
       (\<lambda>base.
          case y of
            Scalar v \<Rightarrow> Inl TypeError
          | Array ys \<Rightarrow>
              (let x_range = last x - hd x;
                   bin_width = x_range / real (length x);
                   y_norm = map (\<lambda>v. fl_div (fl_div v (py_sum ys)) (Fin bin_width)) ys
               in bindE (interp1d_init (map Fin x) (map np_log y_norm) NegInf False)
                    (\<lambda>lp.
                       let cdf = map (\<lambda>v. fl_mul v (Fin bin_width)) (np_cumsum y_norm)
                       in bindE (set_first cdf (Fin 0))
                            (\<lambda>cdf0. bindE (set_last cdf0 (Fin 1))
                               (\<lambda>cdf1. bindE (interp1d_init cdf1 (map Fin x) NaN True)
                                  (\<lambda>pp. Inr (ProbabilityDistribution.extend base
                                               (NumericalDistribution.fields lp pp))))))))"

definition Numerical_get_random ::
  "NumericalDistribution \<Rightarrow> generator \<Rightarrow> nat option \<Rightarrow> error + pyfloat ndarray" where
  "Numerical_get_random self g sz =
     interp1d_call (ppf_interp self) (np_random_uniform g 0 1 sz)"

definition Numerical_logpdf ::
  "NumericalDistribution \<Rightarrow> real ndarray \<Rightarrow> error + pyfloat ndarray" where
  "Numerical_logpdf self x = interp1d_call (logpdf_interp self) x"

subsection \<open>The univariate distributions as one type\<close>

datatype distribution =
    Uniform UniformDistribution
  | Delta DeltaDistribution
  | Normal NormalDistribution
  | AsymmetricNormal AsymmetricNormalDistribution
  | HalfNormal HalfNormalDistribution
  | UpperLimit GaussianUpperLimit
  | Numerical NumericalDistribution

fun pd_central_value :: "distribution \<Rightarrow> pynum" where
  "pd_central_value (Uniform d) = central_value d"
| "pd_central_value (Delta d) = central_value d"
| "pd_central_value (Normal d) = central_value d"
| "pd_central_value (AsymmetricNormal d) = central_value d"
| "pd_central_value (HalfNormal d) = central_value d"
| "pd_central_value (UpperLimit d) = central_value d"
| "pd_central_value (Numerical d) = central_value d"

fun pd_support :: "distribution \<Rightarrow> real \<times> real" where
  "pd_support (Uniform d) = support d"
| "pd_support (Delta d) = support d"
| "pd_support (Normal d) = support d"
| "pd_support (AsymmetricNormal d) = support d"
| "pd_support (HalfNormal d) = support d"
| "pd_support (UpperLimit d) = support d"
| "pd_support (Numerical d) = support d"

text \<open>The method calls \<^verbatim>\<open>pd.logpdf(x)\<close> and \<^verbatim>\<open>pd.get_random(size)\<close>, dispatched on the class.\<close>

fun pd_logpdf :: "distribution \<Rightarrow> real ndarray \<Rightarrow> error + pyfloat ndarray" where
  "pd_logpdf (Uniform d) x = Uniform_logpdf d x"
| "pd_logpdf (Delta d) x = Delta_logpdf d x"
| "pd_logpdf (Normal d) x = Normal_logpdf d x"
| "pd_logpdf (AsymmetricNormal d) x = AsymmetricNormal_logpdf d x"
| "pd_logpdf (HalfNormal d) x = HalfNormal_logpdf d x"
| "pd_logpdf (UpperLimit d) x = HalfNormal_logpdf d x"
| "pd_logpdf (Numerical d) x = Numerical_logpdf d x"

definition as_floats :: "error + real ndarray \<Rightarrow> error + pyfloat ndarray" where
  "as_floats m = bindE m (\<lambda>r. Inr (broadcast Fin r))"

fun pd_get_random :: "distribution \<Rightarrow> generator \<Rightarrow> nat option \<Rightarrow> error + pyfloat ndarray" where
  "pd_get_random (Uniform d) g sz = as_floats (Uniform_get_random d g sz)"
| "pd_get_random (Delta d) g sz = as_floats (Delta_get_random d g sz)"
| "pd_get_random (Normal d) g sz = as_floats (Normal_get_random d g sz)"
| "pd_get_random (AsymmetricNormal d) g sz = as_floats (AsymmetricNormal_get_random d g sz)"
| "pd_get_random (HalfNormal d) g sz = as_floats (HalfNormal_get_random d g sz)"
| "pd_get_random (UpperLimit d) g sz = as_floats (HalfNormal_get_random d g sz)"
| "pd_get_random (Numerical d) g sz = Numerical_get_random d g sz"

text \<open>The attribute \<^verbatim>\<open>p.standard_deviation\<close>, which only some classes have.\<close>

fun pd_standard_deviation :: "distribution \<Rightarrow> error + real" where
  "pd_standard_deviation (Normal d) = Inr (NormalDistribution.standard_deviation d)"
| "pd_standard_deviation (HalfNormal d) = Inr (HalfNormalDistribution.standard_deviation d)"
| "pd_standard_deviation (UpperLimit d) = Inr (HalfNormalDistribution.standard_deviation d)"
| "pd_standard_deviation d = Inl AttributeError"

fun isinstance_Normal :: "distribution \<Rightarrow> bool" where
  "isinstance_Normal (Normal d) = True"
| "isinstance_Normal d = False"

fun isinstance_Delta :: "distribution \<Rightarrow> bool" where
  "isinstance_Delta (Delta d) = True"
| "isinstance_Delta d = False"

fun isinstance_Numerical :: "distribution \<Rightarrow> bool" where
  "isinstance_Numerical (Numerical d) = True"
| "isinstance_Numerical d = False"

text \<open>\<^verbatim>\<open>NumericalDistribution.from_pd\<close>: the tabulated copy of any distribution.\<close>

definition from_pd :: "distribution \<Rightarrow> nat \<Rightarrow> error + NumericalDistribution" where
  "from_pd pd nsteps =
     (let x = linspace (fst (pd_support pd)) (snd (pd_support pd)) nsteps
      in bindE (pd_logpdf pd (Array x))
           (\<lambda>l. NumericalDistribution_init x (broadcast np_exp l) (Some (pd_central_value pd))))"

section \<open>Combining distributions\<close>

text \<open>
  \<^verbatim>\<open>_convolve_gaussians\<close>. The assertion over the classes holds for the empty list; the read
  of element 0 then raises.
\<close>

definition convolve_gaussians :: "distribution list \<Rightarrow> error + NormalDistribution" where
  "convolve_gaussians probability_distributions =
     (if \<not> list_all isinstance_Normal probability_distributions then Inl AssertionError
      else case probability_distributions of
        [] \<Rightarrow> Inl IndexError
      | p0 # ps \<Rightarrow>
          (let cv = pd_central_value p0
           in if \<not> list_all (\<lambda>p. num_val (pd_central_value p) = num_val cv)
                     probability_distributions
              then Inl AssertionError
              else bindE (sequenceE (map pd_standard_deviation probability_distributions))
                     (\<lambda>sigmas. let sigma = sqrt (sum_list (map (\<lambda>s. s\<^sup>2) sigmas))
                                in Inr (NormalDistribution_init cv sigma))))"

text \<open>
  \<^verbatim>\<open>scipy.signal.fftconvolve\<close> on the results of \<^verbatim>\<open>logpdf\<close>: two arrays, or two single
  numbers, which it multiplies; it refuses arguments of different dimension.
\<close>

fun fftconvolve :: "pyfloat ndarray \<Rightarrow> pyfloat ndarray \<Rightarrow> error + pyfloat ndarray" where
  "fftconvolve (Array y) (Array y1) = Inr (Array (fftconvolve_same y y1))"
| "fftconvolve (Scalar y) (Scalar y1) = Inr (Scalar (fl_mul y y1))"
| "fftconvolve y y1 = Inl ValueError"

text \<open>The loop of \<^verbatim>\<open>_convolve_numerical\<close>; \<open>y\<close> is \<^verbatim>\<open>None\<close> before the first round.\<close>

fun convolve_loop ::
  "distribution list \<Rightarrow> real list \<Rightarrow> pyfloat \<Rightarrow> pyfloat ndarray option
     \<Rightarrow> error + pyfloat ndarray option" where
  "convolve_loop [] x delta y = Inr y"
| "convolve_loop (pd # pds) x delta y =
     bindE (pd_logpdf pd (Array x))
       (\<lambda>l. let y1 = broadcast (\<lambda>v. fl_mul (np_exp v) delta) l
             in case y of
                  None \<Rightarrow> convolve_loop pds x delta (Some y1)
                | Some y0 \<Rightarrow>
                    bindE (fftconvolve y0 y1) (\<lambda>y2. convolve_loop pds x delta (Some y2)))"

definition list_min :: "real list \<Rightarrow> real" where
  "list_min xs = foldl min (hd xs) (tl xs)"

definition list_max :: "real list \<Rightarrow> real" where
  "list_max xs = foldl max (hd xs) (tl xs)"

definition convolve_numerical :: "distribution list \<Rightarrow> nat \<Rightarrow> error + NumericalDistribution" where
  "convolve_numerical probability_distributions nsteps =
     (if \<not> list_all isinstance_Numerical probability_distributions then Inl AssertionError
      else case probability_distributions of
        [] \<Rightarrow> Inl IndexError
      | p0 # ps \<Rightarrow>
          (let cv = pd_central_value p0
           in if \<not> list_all (\<lambda>p. num_val (pd_central_value p) = num_val cv)
                     probability_distributions
              then Inl AssertionError
              else
                let supports = map pd_support probability_distributions;
                    lo = list_min (map fst supports);
                    hi = list_max (map snd supports);
                    delta = fl_div (Fin (hi - lo)) (Fin (real nsteps - 1));
                    x = linspace lo hi nsteps
                in bindE (convolve_loop probability_distributions x delta None)
                     (\<lambda>y. case y of
                             None \<Rightarrow> Inl TypeError
                           | Some y' \<Rightarrow> NumericalDistribution_init x y' (Some cv))))"

text \<open>
  An element of the argument of \<^verbatim>\<open>convolve_distributions\<close> is an object: \<^verbatim>\<open>__hash__\<close> and
  \<^verbatim>\<open>__eq__\<close> of the base class go by \<^verbatim>\<open>id(self)\<close>, so the model pairs every distribution with
  its identity. \<^verbatim>\<open>list(set(...))\<close> keeps one entry for each identity, in the order of the
  hash table, which Python does not specify: the position \<open>key\<close> of an identity in that
  order is a parameter.
\<close>

type_synonym obj = "nat \<times> distribution"

definition set_of_objs :: "obj list \<Rightarrow> obj list" where
  "set_of_objs ps = foldl (\<lambda>acc p. if fst p \<in> set (map fst acc) then acc else acc @ [p]) [] ps"

definition list_of_set :: "(nat \<Rightarrow> nat) \<Rightarrow> obj list \<Rightarrow> obj list" where
  "list_of_set key ps = sort_key (\<lambda>p. key (fst p)) ps"

definition convolve_distributions :: "(nat \<Rightarrow> nat) \<Rightarrow> obj list \<Rightarrow> error + distribution" where
  "convolve_distributions key probability_distributions =
     (if length probability_distributions = 1 then Inr (snd (hd probability_distributions))
      else case probability_distributions of
        [] \<Rightarrow> Inl IndexError
      | p0 # ps \<Rightarrow>
          (let cv = pd_central_value (snd p0)
           in if \<not> isinstance_float cv then Inl AssertionError
              else if \<not> list_all (\<lambda>p. num_val (pd_central_value (snd p)) = num_val cv)
                          probability_distributions
                then Inl AssertionError
              else
                let gaussians = filter (\<lambda>p. isinstance_Normal (snd p)) probability_distributions
                in bindE (convolve_gaussians (map snd gaussians))
                     (\<lambda>gaussian.
                        let deltas = filter (\<lambda>p. isinstance_Delta (snd p)) probability_distributions;
                            others = list_of_set key
                                       (filter (\<lambda>p. fst p \<notin> set (map fst gaussians)
                                                   \<and> fst p \<notin> set (map fst deltas))
                                          (set_of_objs probability_distributions))
                        in if others = [] then Inr (Normal gaussian)
                           else
                             let to_be_combined = map snd others @ [Normal gaussian]
                             in bindE (sequenceE (map (\<lambda>p. from_pd p 1000) to_be_combined))
                                  (\<lambda>numerical.
                                     bindE (convolve_numerical (map Numerical numerical) 1000)
                                       (\<lambda>r. Inr (Numerical r))))))"

section \<open>MultivariateNormalDistribution\<close>

text \<open>
  A two-dimensional array is the list of its rows. The linear algebra of NumPy and SciPy is
  taken over the reals: \<^verbatim>\<open>np.linalg.det\<close> as the expansion along the first row, the inverse
  in the quadratic form as the matrix of cofactors over the determinant.
\<close>

type_synonym matrix = "real list list"

definition square :: "matrix \<Rightarrow> bool" where
  "square A = list_all (\<lambda>row. length row = length A) A"

definition delete_at :: "nat \<Rightarrow> 'a list \<Rightarrow> 'a list" where
  "delete_at j xs = take j xs @ drop (Suc j) xs"

function det :: "matrix \<Rightarrow> real" where
  "det [] = 1"
| "det (r # rs) =
     (\<Sum>j\<leftarrow>[0..<Suc (length rs)]. (- 1) ^ j * r ! j * det (map (delete_at j) rs))"
  by pat_completeness auto
termination
  by (relation "measure length") auto

definition minor :: "matrix \<Rightarrow> nat \<Rightarrow> nat \<Rightarrow> matrix" where
  "minor A i j = map (delete_at j) (delete_at i A)"

definition inverse_entry :: "matrix \<Rightarrow> nat \<Rightarrow> nat \<Rightarrow> real" where
  "inverse_entry A i j = (- 1) ^ (i + j) * det (minor A j i) / det A"

text \<open>The quadratic form \<open>v\<^sup>T A\<^sup>-\<^sup>1 v\<close>.\<close>

definition quadratic_form :: "real list \<Rightarrow> matrix \<Rightarrow> real" where
  "quadratic_form v A =
     (\<Sum>i\<leftarrow>[0..<length A]. \<Sum>j\<leftarrow>[0..<length A]. v ! i * inverse_entry A i j * v ! j)"

definition np_diag :: "matrix \<Rightarrow> real list" where
  "np_diag A = map (\<lambda>i. A ! i ! i) [0..<length A]"

definition np_outer :: "real list \<Rightarrow> real list \<Rightarrow> matrix" where
  "np_outer u v = map (\<lambda>a. map (\<lambda>b. a * b) v) u"

text \<open>
  Element-wise division of two vectors; NumPy stretches a vector of one element, and raises
  for any other two lengths that differ.
\<close>

definition np_divide :: "real list \<Rightarrow> real list \<Rightarrow> error + real list" where
  "np_divide u v =
     (if length u = length v then Inr (map2 (/) u v)
      else if length u = 1 then Inr (map (\<lambda>b. hd u / b) v)
      else if length v = 1 then Inr (map (\<lambda>a. a / hd v) u)
      else Inl ValueError)"

text \<open>Element-wise division of two matrices of the same shape.\<close>

definition mat_divide :: "matrix \<Rightarrow> matrix \<Rightarrow> error + matrix" where
  "mat_divide A B =
     (if map length A = map length B then Inr (map2 (map2 (/)) A B) else Inl ValueError)"

text \<open>
  A symmetric matrix is positive definite if and only if its leading principal minors are
  positive (Sylvester's criterion); this form can be evaluated.
\<close>

definition leading :: "nat \<Rightarrow> matrix \<Rightarrow> matrix" where
  "leading k A = map (take k) (take k A)"

definition symmetric :: "matrix \<Rightarrow> bool" where
  "symmetric A =
     list_all (\<lambda>i. list_all (\<lambda>j. A ! i ! j = A ! j ! i) [0..<length A]) [0..<length A]"

definition positive_definite :: "matrix \<Rightarrow> bool" where
  "positive_definite A =
     (square A \<and> symmetric A \<and> list_all (\<lambda>k. 0 < det (leading k A)) [1..<Suc (length A)])"

text \<open>
  \<^verbatim>\<open>scipy.stats.multivariate_normal.logpdf(x, mean, cov)\<close> at one point: the log-density of
  the multivariate normal distribution. SciPy raises for a covariance that is not positive
  definite and for arguments whose dimensions do not fit.
\<close>

definition mvn_logpdf :: "real list \<Rightarrow> real list \<Rightarrow> matrix \<Rightarrow> error + real" where
  "mvn_logpdf x mean cov =
     (if length x \<noteq> length cov \<or> length mean \<noteq> length cov \<or> \<not> positive_definite cov
      then Inl ValueError
      else Inr (- (real (length cov) * ln (2 * pi) + ln (det cov)
                   + quadratic_form (map2 (-) x mean) cov) / 2))"

record MultivariateNormalDistribution =
  "(real list, (real \<times> real) option) ProbabilityDistribution" +
  covariance :: matrix

text \<open>
  The constructor asserts that all eigenvalues are positive. \<^verbatim>\<open>np.linalg.eigvals\<close> is the
  parameter \<open>eigvals\<close>; it raises for a matrix that is not square.
\<close>

definition MultivariateNormalDistribution_init ::
  "(matrix \<Rightarrow> real list) \<Rightarrow> real list \<Rightarrow> matrix \<Rightarrow> error + MultivariateNormalDistribution" where
  "MultivariateNormalDistribution_init eigvals c cov =
     (if \<not> square cov then Inl LinAlgError
      else if \<not> list_all (\<lambda>e. e > 0) (eigvals cov) then Inl AssertionError
      else Inr \<lparr>central_value = c, support = None, covariance = cov\<rparr>)"

text \<open>
  \<^verbatim>\<open>logpdf\<close>. Where an entry of the diagonal is not positive, NumPy fills the rescaled
  arguments with \<^verbatim>\<open>nan\<close> or \<^verbatim>\<open>inf\<close>, which SciPy refuses with ValueError.
\<close>

definition MultivariateNormal_logpdf ::
  "MultivariateNormalDistribution \<Rightarrow> real list \<Rightarrow> error + pyfloat" where
  "MultivariateNormal_logpdf self x =
     (let err = map sqrt (np_diag (covariance self));
          scale_matrix = np_outer err err
      in bindE (np_divide x err)
           (\<lambda>x_scaled. bindE (np_divide (central_value self) err)
              (\<lambda>mean_scaled. bindE (mat_divide (covariance self) scale_matrix)
                 (\<lambda>cov_scaled.
                    if \<not> list_all (\<lambda>a. 0 < a) (np_diag (covariance self)) then Inl ValueError
                    else bindE (mvn_logpdf x_scaled mean_scaled cov_scaled)
                      (\<lambda>pdf_scaled.
                         bindE (math_log (fl_div (Fin (det cov_scaled))
                                                 (Fin (det (covariance self)))))
                           (\<lambda>l. Inr (fl_add (Fin pdf_scaled) (fl_div l (Fin 2)))))))))"

section \<open>Objects and predicates of the statements\<close>

text \<open>Two Uniform objects with central value 0.0: a collection without a Normal member.\<close>

definition two_uniforms :: "obj list" where
  "two_uniforms = [(0, Uniform (UniformDistribution_init (PyFloat 0) 1)),
                   (1, Uniform (UniformDistribution_init (PyFloat 0) 2))]"

text \<open>
  The arguments of one call \<^verbatim>\<open>NormalDistribution(centre, sigma)\<close>, with the identity of the
  object it creates, and the list of objects created by a list of such calls.
\<close>

record normal_call =
  ident :: nat
  centre :: pynum
  sigma :: real


text \<open>The central value lies in the closed interval of the support.\<close>

definition central_in_support :: "distribution \<Rightarrow> bool" where
  "central_in_support d =
     (fst (pd_support d) \<le> num_val (pd_central_value d)
      \<and> num_val (pd_central_value d) \<le> snd (pd_support d))"

text \<open>
  A matrix with row \<open>i\<close> multiplied by \<open>r ! i\<close> and column \<open>j\<close> by \<open>c ! j\<close>: the
  covariance divided by the outer product of the standard deviations has this form.
\<close>

definition scale_rc :: "real list \<Rightarrow> real list \<Rightarrow> matrix \<Rightarrow> matrix" where
  "scale_rc r c A = map2 (\<lambda>ri row. map2 (\<lambda>cj a. ri * a * cj) c row) r A"

section \<open>Uniform log-density\<close>

lemma Uniform__logpdf_inside:
  assumes "0 < h" and "num_val c - h \<le> x" and "x < num_val c + h"
  shows "Uniform__logpdf (UniformDistribution_init c h) x = Inr (Fin (- ln (2 * h)))"
  using assms by (simp add: Uniform__logpdf_def UniformDistribution_init_def bindE_def)

lemma Uniform__logpdf_outside:
  assumes "x < num_val c - h \<or> num_val c + h \<le> x"
  shows "Uniform__logpdf (UniformDistribution_init c h) x = Inr NegInf"
  using assms by (auto simp add: Uniform__logpdf_def UniformDistribution_init_def)

text \<open>
  C7, as the code has it. For a Uniform distribution with \<open>half_range > 0\<close> the log-density
  is \<open>- ln (2 * half_range)\<close> on the half-open interval from \<open>center - half_range\<close>
  (included) to \<open>center + half_range\<close> (excluded), and negative infinity everywhere else,
  the upper end point included: the guard of \<^verbatim>\<open>_logpdf\<close> is \<^verbatim>\<open>x >= self.range[1]\<close>.
\<close>

theorem C7_uniform_logpdf_half_open:
  "0 < h \<Longrightarrow>
   Uniform__logpdf (UniformDistribution_init c h) x =
     (if num_val c - h \<le> x \<and> x < num_val c + h then Inr (Fin (- ln (2 * h))) else Inr NegInf)"
  by (simp add: Uniform__logpdf_inside Uniform__logpdf_outside not_le not_less)

theorem C7_uniform_logpdf_half_open_witness:
  "(0::real) < 1 \<and>
   Uniform__logpdf (UniformDistribution_init (PyFloat 0) 1) (1/2) = Inr (Fin (- ln 2)) \<and>
   Uniform__logpdf (UniformDistribution_init (PyFloat 0) 1) (- 1) = Inr (Fin (- ln 2)) \<and>
   Uniform__logpdf (UniformDistribution_init (PyFloat 0) 1) 2 = Inr NegInf"
  using C7_uniform_logpdf_half_open [of 1 "PyFloat 0" "1/2"]
        C7_uniform_logpdf_half_open [of 1 "PyFloat 0" "- 1"]
        C7_uniform_logpdf_half_open [of 1 "PyFloat 0" 2]
  by simp

text \<open>
  C7 as the specification states it fails at the upper end point: for the Uniform
  distribution with center 0 and half range 1, the point 1 lies in the closed support
  \<open>[-1, 1]\<close>, and the log-density there is negative infinity, not \<open>- ln 2\<close>.
\<close>

theorem C7_upper_endpoint_counterexample:
  "half_range (UniformDistribution_init (PyFloat 0) 1) > 0 \<and>
   fst (support (UniformDistribution_init (PyFloat 0) 1)) \<le> 1 \<and>
   1 \<le> snd (support (UniformDistribution_init (PyFloat 0) 1)) \<and>
   Uniform__logpdf (UniformDistribution_init (PyFloat 0) 1) 1 = Inr NegInf \<and>
   Uniform__logpdf (UniformDistribution_init (PyFloat 0) 1) 1 \<noteq> Inr (Fin (- ln (2 * 1)))"
  by (simp add: Uniform__logpdf_def UniformDistribution_init_def)

section \<open>The standard deviation of an upper limit\<close>

text \<open>
  C1 at \<^verbatim>\<open>GaussianUpperLimit(limit=10, confidence_level=0.95)\<close>. The specification derives
  the standard deviation as the limit divided by the normal quantile at
  \<open>0.5 + confidence_level / 2\<close>. \<^verbatim>\<open>get_standard_deviation\<close> multiplies the limit by that
  quantile: the object carries \<open>10 * ppf 0.975\<close>, which is the quotient \<open>10 / ppf 0.975\<close>
  only for a quantile of 0, 1 or -1, and the quantile at 0.975 is about 1.959964.
\<close>

theorem C1_upper_limit_sigma_is_product:
  "map_sum id HalfNormalDistribution.standard_deviation (GaussianUpperLimit_init ppf 10 (95/100))
     = Inr (10 * ppf (975/1000))
   \<and> ((10 * ppf (975/1000) = 10 / ppf (975/1000))
        = (ppf (975/1000) = 0 \<or> ppf (975/1000) = 1 \<or> ppf (975/1000) = - 1))"
proof -
  have a: "map_sum id HalfNormalDistribution.standard_deviation
             (GaussianUpperLimit_init ppf 10 (95/100)) = Inr (10 * ppf (975/1000))"
    by (simp add: GaussianUpperLimit_init_def get_standard_deviation_def
        HalfNormalDistribution_init_def HalfNormalDistribution.extend_def)
  have b: "(10 * q = 10 / q) = (q = 0 \<or> q = 1 \<or> q = - 1)" for q :: real
  proof (cases "q = 0")
    case True
    then show ?thesis by simp
  next
    case False
    then have "(10 * q = 10 / q) = (q * q = 1)"
      by (simp add: field_simps)
    also have "\<dots> = (q = 1 \<or> q = - 1)"
      by (simp add: square_eq_1_iff[symmetric] del: square_eq_1_iff)
    finally show ?thesis using False by simp
  qed
  show ?thesis using a b by simp
qed

section \<open>Log-density of a sequence\<close>

text \<open>
  C5 at \<^verbatim>\<open>DeltaDistribution(5.0).logpdf(np.array([5.0, 6.0]))\<close>. The method compares the
  whole argument with the central value inside an \<^verbatim>\<open>if\<close>, so an array of two points raises
  ValueError instead of giving the two log-densities. \<^verbatim>\<open>UniformDistribution.logpdf\<close> goes
  through \<^verbatim>\<open>np.vectorize\<close> and returns an array of the same length, with negative infinity
  outside the support.
\<close>

theorem C5_delta_logpdf_sequence_raises:
  "Delta_logpdf (DeltaDistribution_init (PyFloat 5)) (Array [5, 6]) = Inl ValueError
   \<and> Uniform_logpdf (UniformDistribution_init (PyFloat 5) 1) (Array [5, 7])
       = Inr (Array [Fin (- ln 2), NegInf])"
  by (simp add: Delta_logpdf_def truth_of_eq_def bindE_def Uniform_logpdf_def vectorize_def
      Uniform__logpdf_def UniformDistribution_init_def DeltaDistribution_init_def)

section \<open>Sampling with a count\<close>

text \<open>
  C6 at \<^verbatim>\<open>AsymmetricNormalDistribution(0.0, 1.0, 2.0).get_random(3)\<close>. The method never reads
  \<^verbatim>\<open>size\<close>: a call with a count returns what the call without one returns, which is a
  single number. With the uniform draw 1/2 and the normal draw 1 that number is -2.
\<close>

theorem C6_asymmetric_get_random_ignores_size:
  "AsymmetricNormal_get_random d g (Some n) = AsymmetricNormal_get_random d g None
   \<and> bindE (AsymmetricNormalDistribution_init (PyFloat 0) 1 2)
       (\<lambda>d. AsymmetricNormal_get_random d
               \<lparr>random_sample = (\<lambda>i. 1/2), standard_normal = (\<lambda>i. 1)\<rparr> (Some 3))
     = Inr (Scalar (- 2))"
  by (simp add: AsymmetricNormalDistribution_init_def AsymmetricNormal_get_random_def
      bindE_def Let_def)

section \<open>Combination of distributions\<close>




lemma convolve_gaussians_Nil: "convolve_gaussians [] = Inl IndexError"
  by (simp add: convolve_gaussians_def)

lemma convolve_no_normal:
  assumes "length pds \<noteq> 1" and "pds \<noteq> []"
    and "isinstance_float (pd_central_value (snd (hd pds)))"
    and "list_all (\<lambda>p. num_val (pd_central_value (snd p)) = num_val (pd_central_value (snd (hd pds)))) pds"
    and "list_all (\<lambda>p. \<not> isinstance_Normal (snd p)) pds"
  shows "convolve_distributions key pds = Inl IndexError"
proof -
  obtain p0 ps where pds: "pds = p0 # ps" using assms(2) by (cases pds) auto
  have f: "filter (\<lambda>p. isinstance_Normal (snd p)) pds = []"
    using assms(5) by (simp add: filter_empty_conv list_all_iff)
  show ?thesis
    using assms(1,3,4) unfolding convolve_distributions_def pds[symmetric] f
    by (simp add: pds convolve_gaussians_Nil bindE_def Let_def)
qed

text \<open>
  C10. There is a collection of two distributions with the same central value 0.0 and
  without a Normal member (the two Uniform objects above) on which
  \<^verbatim>\<open>convolve_distributions\<close> aborts: \<^verbatim>\<open>_convolve_gaussians\<close> is called on the empty list of
  Normal members and raises IndexError at its read of element 0, and that exception leaves
  \<^verbatim>\<open>convolve_distributions\<close>.
\<close>

theorem C10_no_normal_member_aborts:
  "\<exists>pds. 2 \<le> length pds
     \<and> list_all (\<lambda>p. pd_central_value (snd p) = PyFloat 0) pds
     \<and> list_all (\<lambda>p. \<not> isinstance_Normal (snd p)) pds
     \<and> convolve_gaussians (map snd (filter (\<lambda>p. isinstance_Normal (snd p)) pds)) = Inl IndexError
     \<and> convolve_distributions key pds = Inl IndexError"
proof (intro exI[of _ two_uniforms] conjI)
  show "convolve_distributions key two_uniforms = Inl IndexError"
    by (rule convolve_no_normal) (simp_all add: two_uniforms_def UniformDistribution_init_def)
qed (simp_all add: two_uniforms_def UniformDistribution_init_def convolve_gaussians_Nil)

text \<open>
  C2 at \<^verbatim>\<open>convolve_distributions([UniformDistribution(0.0, 1.0),
  HalfNormalDistribution(0.0, 1.0)])\<close>: a non-empty collection of univariate distributions
  with the same float central value, for which no distribution is returned. The call
  raises IndexError.
\<close>

theorem C2_two_non_normal_abort:
  "convolve_distributions key
     [(0, Uniform (UniformDistribution_init (PyFloat 0) 1)),
      (1, HalfNormal (HalfNormalDistribution_init (PyFloat 0) 1))] = Inl IndexError"
  by (simp add: convolve_distributions_def UniformDistribution_init_def
      HalfNormalDistribution_init_def convolve_gaussians_def bindE_def)





section \<open>Construction and the support invariant\<close>

lemma argmax_from_bound: "bi < i \<Longrightarrow> argmax_from bi bv i ys < i + length ys"
proof (induction ys arbitrary: bi bv i)
  case Nil
  then show ?case by simp
next
  case (Cons y ys)
  have a: "argmax_from i y (Suc i) ys < Suc i + length ys"
    using Cons.IH[of i "Suc i" y] by simp
  have b: "argmax_from bi bv (Suc i) ys < Suc i + length ys"
    using Cons.IH[of bi "Suc i" bv] Cons.prems by simp
  show ?case using a b Cons.prems by simp
qed

lemma np_argmax_bound:
  assumes "np_argmax (Array ys) = Inr i"
  shows "i < length ys"
proof (cases ys)
  case Nil
  then show ?thesis using assms by (simp add: np_argmax_def)
next
  case (Cons v vs)
  then have "i = argmax_from 0 v 1 vs" using assms by (simp add: np_argmax_def)
  then show ?thesis using argmax_from_bound[of 0 1 v vs] Cons by simp
qed

lemma np_argmax_nonempty: "ys \<noteq> [] \<Longrightarrow> \<exists>i. np_argmax (Array ys) = Inr i"
  by (cases ys) (simp_all add: np_argmax_def)

lemma NumericalDistribution_init_base:
  assumes "NumericalDistribution_init x y cv = Inr d"
  shows "\<exists>b. NumericalDistribution_base x y cv = Inr b
           \<and> central_value d = central_value b \<and> support d = support b"
  using assms
  by (auto simp add: NumericalDistribution_init_def bindE_def Let_def
      ProbabilityDistribution.extend_def
      split: sum.splits ndarray.splits)

lemma strict_grid_bounds:
  assumes "sorted_wrt (<) (x :: real list)" and "i < length x"
  shows "hd x \<le> x ! i \<and> x ! i \<le> last x"
proof -
  have s: "sorted x" using assms(1) by (rule strict_sorted_imp_sorted)
  have ne: "x \<noteq> []" using assms(2) by auto
  have "x ! 0 \<le> x ! i" using s assms(2) by (simp add: sorted_nth_mono)
  moreover have "x ! i \<le> x ! (length x - 1)"
    using s assms(2) by (intro sorted_nth_mono) auto
  ultimately show ?thesis using ne by (simp add: hd_conv_nth last_conv_nth)
qed

lemma Numerical_central_in_support:
  assumes "sorted_wrt (<) x" and "NumericalDistribution_init x y cv = Inr d"
  shows "central_in_support (Numerical d)"
proof -
  obtain b where b: "NumericalDistribution_base x y cv = Inr b"
    and cb: "central_value d = central_value b" and sb: "support d = support b"
    using NumericalDistribution_init_base[OF assms(2)] by blast
  have "fst (support b) \<le> num_val (central_value b) \<and> num_val (central_value b) \<le> snd (support b)"
  proof (cases cv)
    case (Some c)
    then show ?thesis using b
      by (auto simp add: NumericalDistribution_base_def split: if_splits)
  next
    case None
    then obtain i where i: "i < length x" and bb: "b = \<lparr>central_value = PyFloat (x ! i), support = (hd x, last x)\<rparr>"
      using b by (auto simp add: NumericalDistribution_base_def bindE_def split: sum.splits if_splits)
    show ?thesis using strict_grid_bounds[OF assms(1) i] by (simp add: bb)
  qed
  then show ?thesis by (simp add: central_in_support_def cb sb)
qed

lemma interp1d_init_ok:
  "length x = length y \<Longrightarrow> 2 \<le> length x \<Longrightarrow> \<exists>f. interp1d_init x y fill be = Inr f"
  by (simp add: interp1d_init_def Let_def)

lemma length_cumsum_from: "length (cumsum_from acc ys) = length ys"
  by (induction ys arbitrary: acc) simp_all

lemma cumsum_from_Nil: "(cumsum_from acc ys = []) = (ys = [])"
  by (cases ys) simp_all

lemma NumericalDistribution_init_of_base:
  assumes "2 \<le> length x" and "length ys = length x"
    and "NumericalDistribution_base x (Array ys) cv = Inr b"
  shows "\<exists>d. NumericalDistribution_init x (Array ys) cv = Inr d
            \<and> central_value d = central_value b \<and> support d = support b"
proof -
  have yne: "ys \<noteq> []" using assms(1,2) by auto
  show ?thesis
    unfolding NumericalDistribution_init_def assms(3)
    using assms(1,2) yne
    by (simp add: bindE_def Let_def interp1d_init_def set_first_def set_last_def
        np_cumsum_def length_cumsum_from cumsum_from_Nil ProbabilityDistribution.extend_def)
qed

lemma NumericalDistribution_init_fails_iff:
  assumes "2 \<le> length x" and "length ys = length x"
  shows "isl (NumericalDistribution_init x (Array ys) cv)
           = (\<exists>c. cv = Some c \<and> \<not> (hd x \<le> num_val c \<and> num_val c \<le> last x))"
    and "isl (NumericalDistribution_init x (Array ys) cv)
           \<longrightarrow> NumericalDistribution_init x (Array ys) cv = Inl ValueError"
proof -
  have xne: "x \<noteq> []" using assms(1) by auto
  have yne: "ys \<noteq> []" using assms by auto
  show "isl (NumericalDistribution_init x (Array ys) cv)
           = (\<exists>c. cv = Some c \<and> \<not> (hd x \<le> num_val c \<and> num_val c \<le> last x))"
  proof (cases "\<exists>c. cv = Some c \<and> \<not> (hd x \<le> num_val c \<and> num_val c \<le> last x)")
    case True
    then show ?thesis using xne
      by (auto simp add: NumericalDistribution_init_def NumericalDistribution_base_def bindE_def)
  next
    case False
    have "\<exists>b. NumericalDistribution_base x (Array ys) cv = Inr b"
    proof (cases cv)
      case None
      obtain i where i: "np_argmax (Array ys) = Inr i" using np_argmax_nonempty[OF yne] by blast
      then have "i < length x" using np_argmax_bound[OF i] assms(2) by simp
      then show ?thesis using None i by (simp add: NumericalDistribution_base_def bindE_def)
    next
      case (Some c)
      then show ?thesis using False xne by (simp add: NumericalDistribution_base_def)
    qed
    then obtain b where b: "NumericalDistribution_base x (Array ys) cv = Inr b" by blast
    from NumericalDistribution_init_of_base[OF assms b] False show ?thesis by auto
  qed
  then show "isl (NumericalDistribution_init x (Array ys) cv)
           \<longrightarrow> NumericalDistribution_init x (Array ys) cv = Inl ValueError"
    using xne
    by (auto simp add: NumericalDistribution_init_def NumericalDistribution_base_def bindE_def)
qed

text \<open>
  C8, as the code has it. For a grid of at least two points and as many weights, the
  constructor of \<^verbatim>\<open>NumericalDistribution\<close> fails exactly when a central value is given that
  lies outside \<open>[x[0], x[-1]]\<close>, and then with ValueError. The order of the grid points is
  never looked at: a grid that is not strictly increasing yields a distribution whenever
  its two end points enclose the central value, or no central value is given.
\<close>

theorem C8_numerical_init_checks_central_value_only:
  assumes "2 \<le> length x" and "length ys = length x"
  shows "isl (NumericalDistribution_init x (Array ys) cv)
           = (\<exists>c. cv = Some c \<and> \<not> (hd x \<le> num_val c \<and> num_val c \<le> last x))
         \<and> (isl (NumericalDistribution_init x (Array ys) cv)
              \<longrightarrow> NumericalDistribution_init x (Array ys) cv = Inl ValueError)"
  using NumericalDistribution_init_fails_iff[OF assms, of cv] by simp

theorem C8_numerical_init_checks_central_value_only_witness:
  "\<not> sorted_wrt (<) [0, 2, 1, 3 :: real]
   \<and> \<not> isl (NumericalDistribution_init [0, 2, 1, 3] (Array [Fin 1, Fin 1, Fin 1, Fin 1])
              (Some (PyFloat 1)))
   \<and> NumericalDistribution_init [0, 2, 1, 3] (Array [Fin 1, Fin 1, Fin 1, Fin 1])
              (Some (PyFloat 5)) = Inl ValueError"
  using C8_numerical_init_checks_central_value_only
          [of "[0, 2, 1, 3]" "[Fin 1, Fin 1, Fin 1, Fin 1]" "Some (PyFloat 1)"]
        C8_numerical_init_checks_central_value_only
          [of "[0, 2, 1, 3]" "[Fin 1, Fin 1, Fin 1, Fin 1]" "Some (PyFloat 5)"]
  by simp

text \<open>
  C8 as the specification states it fails for the grid \<open>[0, 2, 1, 3]\<close>, which is not
  strictly increasing: with four equal weights and the central value 1 the constructor
  returns an object, with central value 1 and support \<open>(0, 3)\<close>.
\<close>

theorem C8_unsorted_grid_counterexample:
  "\<not> sorted_wrt (<) [0, 2, 1, 3 :: real]
   \<and> \<not> isl (NumericalDistribution_init [0, 2, 1, 3] (Array [Fin 1, Fin 1, Fin 1, Fin 1])
              (Some (PyFloat 1)))
   \<and> central_value (projr (NumericalDistribution_init [0, 2, 1, 3]
          (Array [Fin 1, Fin 1, Fin 1, Fin 1]) (Some (PyFloat 1)))) = PyFloat 1
   \<and> support (projr (NumericalDistribution_init [0, 2, 1, 3]
          (Array [Fin 1, Fin 1, Fin 1, Fin 1]) (Some (PyFloat 1)))) = (0, 3)"
  by (simp add: NumericalDistribution_init_def NumericalDistribution_base_def bindE_def Let_def
      interp1d_init_def set_first_def set_last_def np_cumsum_def
      ProbabilityDistribution.extend_def)

text \<open>
  The central value of a constructed univariate distribution lies in its closed support:
  for Uniform with \<open>half_range \<ge> 0\<close>, Delta, Normal with \<open>sigma > 0\<close>, every
  AsymmetricNormal and GaussianUpperLimit the constructor returns, every HalfNormal, and
  every NumericalDistribution the constructor returns for a strictly increasing grid.
\<close>

lemma central_value_in_support:
  "(0 \<le> h \<longrightarrow> central_in_support (Uniform (UniformDistribution_init c h)))
   \<and> central_in_support (Delta (DeltaDistribution_init c))
   \<and> (0 < sd \<longrightarrow> central_in_support (Normal (NormalDistribution_init c sd)))
   \<and> (AsymmetricNormalDistribution_init c r l = Inr a \<longrightarrow> central_in_support (AsymmetricNormal a))
   \<and> central_in_support (HalfNormal (HalfNormalDistribution_init c s))
   \<and> (GaussianUpperLimit_init ppf lmt cl = Inr u \<longrightarrow> central_in_support (UpperLimit u))
   \<and> (sorted_wrt (<) x \<and> NumericalDistribution_init x y cv = Inr n
        \<longrightarrow> central_in_support (Numerical n))"
proof -
  have u: "0 \<le> h \<longrightarrow> central_in_support (Uniform (UniformDistribution_init c h))"
    by (simp add: central_in_support_def UniformDistribution_init_def)
  have dl: "central_in_support (Delta (DeltaDistribution_init c))"
    by (simp add: central_in_support_def DeltaDistribution_init_def)
  have nm: "0 < sd \<longrightarrow> central_in_support (Normal (NormalDistribution_init c sd))"
    by (simp add: central_in_support_def NormalDistribution_init_def)
  have an: "AsymmetricNormalDistribution_init c r l = Inr a
              \<longrightarrow> central_in_support (AsymmetricNormal a)"
    by (auto simp add: central_in_support_def AsymmetricNormalDistribution_init_def
        split: if_splits)
  have hn: "central_in_support (HalfNormal (HalfNormalDistribution_init c s))"
    by (simp add: central_in_support_def HalfNormalDistribution_init_def)
  have ul: "GaussianUpperLimit_init ppf lmt cl = Inr u \<longrightarrow> central_in_support (UpperLimit u)"
    by (auto simp add: central_in_support_def GaussianUpperLimit_init_def
        HalfNormalDistribution_init_def HalfNormalDistribution.extend_def split: if_splits)
  have nu: "sorted_wrt (<) x \<and> NumericalDistribution_init x y cv = Inr n
        \<longrightarrow> central_in_support (Numerical n)"
    using Numerical_central_in_support by blast
  show ?thesis using u dl nm an hn ul nu by simp
qed

section \<open>Log-density of the multivariate normal distribution\<close>

lemma scale_rc_Nil [simp]: "scale_rc r c [] = []" "scale_rc [] c A = []"
  by (simp_all add: scale_rc_def)

lemma scale_rc_Cons [simp]:
  "scale_rc (r0 # r) c (row # A) = map2 (\<lambda>cj a. r0 * a * cj) c row # scale_rc r c A"
  by (simp add: scale_rc_def)

lemma length_scale_rc [simp]: "length (scale_rc r c A) = min (length r) (length A)"
  by (simp add: scale_rc_def)

lemma length_delete_at: "j < length xs \<Longrightarrow> length (delete_at j xs) = length xs - 1"
  by (auto simp add: delete_at_def)

lemma prod_list_delete_at:
  fixes c :: "real list"
  assumes "j < length c"
  shows "c ! j * prod_list (delete_at j c) = prod_list c"
proof -
  have "c = take j c @ c ! j # drop (Suc j) c" using assms by (rule id_take_nth_drop)
  then have "prod_list c = prod_list (take j c) * (c ! j * prod_list (drop (Suc j) c))"
    by (metis prod_list.append prod_list.Cons)
  then show ?thesis by (simp add: delete_at_def)
qed

lemma delete_at_map2:
  assumes "length row = length c"
  shows "delete_at j (map2 f c row) = map2 f (delete_at j c) (delete_at j row)"
  using assms by (simp add: delete_at_def take_map drop_map take_zip drop_zip zip_append)

lemma delete_col_scale_rc:
  assumes "\<forall>row \<in> set A. length row = length c"
  shows "map (delete_at j) (scale_rc r c A) = scale_rc r (delete_at j c) (map (delete_at j) A)"
  using assms
proof (induction A arbitrary: r)
  case Nil
  show ?case by simp
next
  case (Cons row A)
  show ?case
  proof (cases r)
    case Nil
    then show ?thesis by simp
  next
    case (Cons r0 r')
    then show ?thesis using Cons.IH[of r'] Cons.prems by (simp add: delete_at_map2)
  qed
qed

lemma det_scale_rc:
  assumes "length A = n" and "\<forall>row \<in> set A. length row = n"
    and "length r = n" and "length c = n"
  shows "det (scale_rc r c A) = prod_list r * prod_list c * det A"
  using assms
proof (induction n arbitrary: A r c)
  case 0
  then show ?case by simp
next
  case (Suc n)
  obtain row0 rows where A: "A = row0 # rows" using Suc.prems(1) by (cases A) auto
  obtain r0 r' where r: "r = r0 # r'" using Suc.prems(3) by (cases r) auto
  have lr: "length rows = n" "length r' = n" "length row0 = Suc n"
    using Suc.prems A r by auto
  have rows: "\<forall>row \<in> set rows. length row = length c" using Suc.prems A by auto
  have tm: "(- 1) ^ j * map2 (\<lambda>cj a. r0 * a * cj) c row0 ! j
                 * det (map (delete_at j) (scale_rc r' c rows))
            = (prod_list r * prod_list c) * ((- 1) ^ j * row0 ! j * det (map (delete_at j) rows))"
    if j: "j < Suc n" for j
  proof -
    have e: "map2 (\<lambda>cj a. r0 * a * cj) c row0 ! j = r0 * row0 ! j * c ! j"
      using j lr Suc.prems(4) by simp
    have d: "det (map (delete_at j) (scale_rc r' c rows))
           = prod_list r' * prod_list (delete_at j c) * det (map (delete_at j) rows)"
      unfolding delete_col_scale_rc[OF rows]
    proof (rule Suc.IH)
      show "length (map (delete_at j) rows) = n" using lr by simp
      show "\<forall>row\<in>set (map (delete_at j) rows). length row = n"
        using Suc.prems(2) A j by (auto simp add: length_delete_at)
      show "length r' = n" by (rule lr)
      show "length (delete_at j c) = n" using Suc.prems(4) j by (simp add: length_delete_at)
    qed
    have p: "c ! j * prod_list (delete_at j c) = prod_list c"
      using prod_list_delete_at[of j c] j Suc.prems(4) by simp
    have "(- 1) ^ j * (r0 * row0 ! j * c ! j)
             * (prod_list r' * prod_list (delete_at j c) * det (map (delete_at j) rows))
        = ((r0 * prod_list r') * (c ! j * prod_list (delete_at j c)))
             * ((- 1) ^ j * row0 ! j * det (map (delete_at j) rows))"
      by (simp only: mult_ac)
    also have "\<dots> = (prod_list r * prod_list c)
             * ((- 1) ^ j * row0 ! j * det (map (delete_at j) rows))"
      by (simp only: p r prod_list.Cons)
    finally show ?thesis unfolding e d .
  qed
  have "det (scale_rc r c A)
      = (\<Sum>j\<leftarrow>[0..<Suc n]. (- 1) ^ j * map2 (\<lambda>cj a. r0 * a * cj) c row0 ! j
                 * det (map (delete_at j) (scale_rc r' c rows)))"
    by (simp add: A r lr del: upt_Suc)
  also have "\<dots> = (\<Sum>j\<leftarrow>[0..<Suc n]. (prod_list r * prod_list c)
                       * ((- 1) ^ j * row0 ! j * det (map (delete_at j) rows)))"
    by (rule arg_cong[where f = sum_list], rule map_cong[OF refl]) (simp add: tm del: upt_Suc)
  also have "\<dots> = prod_list r * prod_list c * det A"
    by (simp add: A lr sum_list_const_mult del: upt_Suc)
  finally show ?case .
qed

lemma map2_divide_outer_row:
  "map2 (/) (row :: real list) (map (\<lambda>b. a * b) v) = map2 (\<lambda>cj x. inverse a * x * cj) (map inverse v) row"
proof (induction row arbitrary: v)
  case Nil
  show ?case by simp
next
  case (Cons x row)
  have "x / (a * b) = inverse a * x * inverse b" for b
    by (simp add: divide_inverse mult_ac)
  then show ?case using Cons.IH by (cases v) simp_all
qed

lemma map2_divide_outer:
  "map2 (map2 (/)) A (np_outer u v) = scale_rc (map inverse u) (map inverse v) A"
proof (induction A arbitrary: u)
  case Nil
  show ?case by simp
next
  case (Cons row A)
  show ?case
  proof (cases u)
    case Nil
    then show ?thesis by (simp add: np_outer_def)
  next
    case (Cons a u')
    then show ?thesis using Cons.IH[of u']
      by (simp add: np_outer_def map2_divide_outer_row)
  qed
qed

lemma mat_divide_outer:
  assumes "square A" and "length e = length A"
  shows "mat_divide A (np_outer e e) = Inr (scale_rc (map inverse e) (map inverse e) A)"
proof -
  have "map length A = map length (np_outer e e)"
    using assms by (auto simp add: square_def np_outer_def list_all_iff intro!: nth_equalityI)
  then show ?thesis by (simp add: mat_divide_def map2_divide_outer)
qed

lemma delete_row_scale_rc:
  assumes "length r = length A"
  shows "delete_at i (scale_rc r c A) = scale_rc (delete_at i r) c (delete_at i A)"
  using assms unfolding scale_rc_def by (simp add: delete_at_map2)

lemma set_delete_at: "set (delete_at i xs) \<subseteq> set xs"
  by (auto simp add: delete_at_def dest: in_set_takeD in_set_dropD)

lemma minor_scale_rc:
  assumes "length r = length A" and "\<forall>row \<in> set A. length row = length c"
  shows "minor (scale_rc r c A) i j = scale_rc (delete_at i r) (delete_at j c) (minor A i j)"
proof -
  have "\<forall>row \<in> set (delete_at i A). length row = length c"
    using assms(2) set_delete_at[of i A] by blast
  then show ?thesis
    by (simp add: minor_def delete_row_scale_rc[OF assms(1)] delete_col_scale_rc)
qed

lemma take_cols_scale_rc:
  "map (take k) (scale_rc r c A) = scale_rc r (take k c) (map (take k) A)"
proof (induction A arbitrary: r)
  case Nil
  show ?case by simp
next
  case (Cons row A)
  show ?case using Cons.IH by (cases r) (simp_all add: take_map take_zip)
qed

lemma leading_scale_rc:
  "leading k (scale_rc r c A) = scale_rc (take k r) (take k c) (leading k A)"
proof -
  have "take k (scale_rc r c A) = scale_rc (take k r) c (take k A)"
    by (simp add: scale_rc_def take_map take_zip)
  then show ?thesis by (simp add: leading_def take_cols_scale_rc)
qed

lemma nth_scale_rc:
  assumes "i < length r" and "i < length A" and "j < length c" and "j < length (A ! i)"
  shows "scale_rc r c A ! i ! j = r ! i * A ! i ! j * c ! j"
  using assms by (simp add: scale_rc_def)

lemma square_scale_rc:
  assumes "square A" and "length r = length A" and "length c = length A"
  shows "square (scale_rc r c A)"
  using assms by (auto simp add: square_def scale_rc_def list_all_iff set_zip)

lemma prod_list_pos: "list_all (\<lambda>a. 0 < a) (w :: real list) \<Longrightarrow> 0 < prod_list w"
  by (induction w) simp_all

lemma list_all_take: "list_all P xs \<Longrightarrow> list_all P (take k xs)"
  by (auto simp add: list_all_iff dest: in_set_takeD)

lemma positive_definite_scale_rc:
  assumes "positive_definite A" and "length w = length A" and "list_all (\<lambda>a. 0 < a) w"
  shows "positive_definite (scale_rc w w A)"
proof -
  let ?n = "length A"
  have sq: "square A" and sy: "symmetric A"
    and mn: "list_all (\<lambda>k. 0 < det (leading k A)) [1..<Suc ?n]"
    using assms(1) by (simp_all add: positive_definite_def)
  have rows: "\<And>i. i < ?n \<Longrightarrow> length (A ! i) = ?n"
    using sq by (simp add: square_def list_all_length)
  have len: "length (scale_rc w w A) = ?n" using assms(2) by simp
  have s1: "square (scale_rc w w A)" using square_scale_rc[OF sq assms(2) assms(2)] .
  have s2: "symmetric (scale_rc w w A)"
    unfolding symmetric_def len list_all_iff
  proof (intro ballI)
    fix i j assume "i \<in> set [0..<?n]" "j \<in> set [0..<?n]"
    then have ij: "i < ?n" "j < ?n" by auto
    have "A ! i ! j = A ! j ! i" using sy ij by (simp add: symmetric_def list_all_iff)
    then show "scale_rc w w A ! i ! j = scale_rc w w A ! j ! i"
      using ij assms(2) rows by (simp add: nth_scale_rc mult_ac)
  qed
  have s3: "list_all (\<lambda>k. 0 < det (leading k (scale_rc w w A))) [1..<Suc ?n]"
    unfolding list_all_iff
  proof
    fix k assume "k \<in> set [1..<Suc ?n]"
    then have k: "1 \<le> k" "k \<le> ?n" by auto
    have "k \<in> set [1..<Suc ?n]" using k by auto
    then have d: "0 < det (leading k A)" using mn unfolding list_all_iff by blast
    have l1: "length (leading k A) = k" using k by (simp add: leading_def)
    have l2: "\<forall>row \<in> set (leading k A). length row = k"
    proof
      fix row assume "row \<in> set (leading k A)"
      then obtain row' where r': "row' \<in> set A" "row = take k row'"
        by (auto simp add: leading_def dest: in_set_takeD)
      then have "length row' = ?n" using sq by (simp add: square_def list_all_iff)
      then show "length row = k" using r' k by simp
    qed
    have l3: "length (take k w) = k" using k assms(2) by simp
    have "det (leading k (scale_rc w w A))
            = prod_list (take k w) * prod_list (take k w) * det (leading k A)"
      unfolding leading_scale_rc by (rule det_scale_rc[OF l1 l2 l3 l3])
    moreover have "0 < prod_list (take k w)"
      by (rule prod_list_pos) (rule list_all_take[OF assms(3)])
    ultimately show "0 < det (leading k (scale_rc w w A))" using d by simp
  qed
  show ?thesis using s1 s2 s3 len by (simp add: positive_definite_def)
qed

lemma square_rows: "square A \<Longrightarrow> row \<in> set A \<Longrightarrow> length row = length A"
  by (simp add: square_def list_all_iff)

lemma minor_dims:
  assumes "square A" and "i < length A" and "j < length A"
  shows "length (minor A i j) = length A - 1"
    and "\<forall>row \<in> set (minor A i j). length row = length A - 1"
proof -
  show "length (minor A i j) = length A - 1"
    using assms(2) by (simp add: minor_def length_delete_at)
  show "\<forall>row \<in> set (minor A i j). length row = length A - 1"
  proof
    fix row assume "row \<in> set (minor A i j)"
    then obtain row' where r': "row' \<in> set (delete_at i A)" "row = delete_at j row'"
      by (auto simp add: minor_def)
    then have "row' \<in> set A" using set_delete_at[of i A] by blast
    then have "length row' = length A" using assms(1) by (rule square_rows[rotated])
    then show "length row = length A - 1" using r' assms(3) by (simp add: length_delete_at)
  qed
qed

lemma leading_full: "square A \<Longrightarrow> leading (length A) A = A"
  by (simp add: leading_def square_def list_all_iff map_idI)

lemma positive_definite_det: "positive_definite A \<Longrightarrow> 0 < det A"
proof (cases "A = []")
  case True
  then show ?thesis by simp
next
  case False
  assume pd: "positive_definite A"
  have "length A \<in> set [1..<Suc (length A)]" using False by (cases A) auto
  then have "0 < det (leading (length A) A)"
    using pd unfolding positive_definite_def list_all_iff by blast
  then show ?thesis using pd by (simp add: leading_full positive_definite_def)
qed

lemma inverse_entry_scale_rc:
  assumes sq: "square A" and lw: "length w = length A" and pos: "list_all (\<lambda>a. 0 < a) w"
    and i: "i < length A" and j: "j < length A"
  shows "w ! i * inverse_entry (scale_rc w w A) i j * w ! j = inverse_entry A i j"
proof -
  let ?n = "length A"
  let ?P = "prod_list w"
  have P: "0 < ?P" using pos by (rule prod_list_pos)
  have rows: "\<forall>row \<in> set A. length row = length w" using sq lw by (simp add: square_rows)
  have rows': "\<forall>row \<in> set A. length row = ?n" using sq by (simp add: square_rows)
  have dS: "det (scale_rc w w A) = ?P * ?P * det A"
    by (rule det_scale_rc[OF refl rows' lw lw])
  have m: "minor (scale_rc w w A) j i = scale_rc (delete_at j w) (delete_at i w) (minor A j i)"
    by (rule minor_scale_rc[OF lw rows])
  have dM: "det (minor (scale_rc w w A) j i)
          = prod_list (delete_at j w) * prod_list (delete_at i w) * det (minor A j i)"
    unfolding m
    by (rule det_scale_rc[OF minor_dims(1)[OF sq j i] minor_dims(2)[OF sq j i]])
       (simp_all add: length_delete_at lw i j)
  have pi: "w ! i * prod_list (delete_at i w) = ?P" using prod_list_delete_at[of i w] i lw by simp
  have pj: "w ! j * prod_list (delete_at j w) = ?P" using prod_list_delete_at[of j w] j lw by simp
  have "w ! i * ((- 1) ^ (i + j) * (prod_list (delete_at j w) * prod_list (delete_at i w)
                   * det (minor A j i)) / (?P * ?P * det A)) * w ! j
      = (- 1) ^ (i + j) * det (minor A j i)
          * ((w ! i * prod_list (delete_at i w)) * (w ! j * prod_list (delete_at j w)))
          / (?P * ?P * det A)"
    by (simp only: mult_ac times_divide_eq_right times_divide_eq_left)
  also have "\<dots> = (- 1) ^ (i + j) * det (minor A j i) * (?P * ?P) / (?P * ?P * det A)"
    by (simp only: pi pj)
  also have "\<dots> = (- 1) ^ (i + j) * det (minor A j i) / det A"
    using P by simp
  finally show ?thesis by (simp add: inverse_entry_def dS dM)
qed

lemma quadratic_form_scale_rc:
  assumes sq: "square A" and lw: "length w = length A" and pos: "list_all (\<lambda>a. 0 < a) w"
    and v': "\<And>i. i < length A \<Longrightarrow> v' ! i = v ! i * w ! i"
  shows "quadratic_form v' (scale_rc w w A) = quadratic_form v A"
proof -
  have t: "v' ! i * inverse_entry (scale_rc w w A) i j * v' ! j = v ! i * inverse_entry A i j * v ! j"
    if "i < length A" "j < length A" for i j
  proof -
    have "v' ! i * inverse_entry (scale_rc w w A) i j * v' ! j
        = v ! i * (w ! i * inverse_entry (scale_rc w w A) i j * w ! j) * v ! j"
      using that by (simp add: v' mult_ac)
    then show ?thesis using inverse_entry_scale_rc[OF sq lw pos that] by simp
  qed
  have "quadratic_form v' (scale_rc w w A)
      = (\<Sum>i\<leftarrow>[0..<length A]. \<Sum>j\<leftarrow>[0..<length A].
            v' ! i * inverse_entry (scale_rc w w A) i j * v' ! j)"
    by (simp add: quadratic_form_def lw)
  also have "\<dots> = (\<Sum>i\<leftarrow>[0..<length A]. \<Sum>j\<leftarrow>[0..<length A]. v ! i * inverse_entry A i j * v ! j)"
    by (intro arg_cong[where f = sum_list] map_cong refl) (simp add: t)
  finally show ?thesis by (simp add: quadratic_form_def)
qed

text \<open>
  C4. For a positive definite covariance with positive diagonal, a point and a mean of its
  dimension, \<^verbatim>\<open>MultivariateNormalDistribution.logpdf\<close> returns a finite number, and that number is
  the multivariate normal log-density at the point for the mean and the covariance
  themselves: rescaling point and mean by the standard deviations, the covariance by their
  outer product, and adding half the logarithm of the quotient of the two determinants
  changes nothing, in exact real arithmetic.
\<close>

theorem C4_rescaled_logpdf_is_direct_logpdf:
  assumes pd: "positive_definite (covariance self)"
    and dg: "list_all (\<lambda>a. 0 < a) (np_diag (covariance self))"
    and lx: "length x = length (covariance self)"
    and lm: "length (central_value self) = length (covariance self)"
  shows "MultivariateNormal_logpdf self x
           = bindE (mvn_logpdf x (central_value self) (covariance self)) (\<lambda>v. Inr (Fin v))
         \<and> \<not> isl (MultivariateNormal_logpdf self x)"
proof -
  let ?A = "covariance self"
  let ?mu = "central_value self"
  let ?n = "length ?A"
  let ?err = "map sqrt (np_diag ?A)"
  let ?w = "map inverse ?err"
  let ?S = "scale_rc ?w ?w ?A"
  let ?xs = "map2 (/) x ?err"
  let ?ms = "map2 (/) ?mu ?err"
  have sq: "square ?A" using pd by (simp add: positive_definite_def)
  have le: "length ?err = ?n" by (simp add: np_diag_def)
  have lw: "length ?w = ?n" by (simp add: np_diag_def)
  have wpos: "list_all (\<lambda>a. 0 < a) ?w" using dg by (simp add: list_all_iff)
  have d1: "np_divide x ?err = Inr ?xs" using lx le by (simp add: np_divide_def)
  have d2: "np_divide ?mu ?err = Inr ?ms" using lm le by (simp add: np_divide_def)
  have d3: "mat_divide ?A (np_outer ?err ?err) = Inr ?S" using mat_divide_outer[OF sq le] .
  have pdS: "positive_definite ?S" by (rule positive_definite_scale_rc[OF pd lw wpos])
  have rows': "\<forall>row \<in> set ?A. length row = ?n" using sq by (simp add: square_rows)
  have P: "0 < prod_list ?w" using wpos by (rule prod_list_pos)
  have dA: "0 < det ?A" using pd by (rule positive_definite_det)
  have dS: "0 < det ?S" using pdS by (rule positive_definite_det)
  have vi: "map2 (-) ?xs ?ms ! i = map2 (-) x ?mu ! i * ?w ! i" if "i < ?n" for i
    using that lx lm le by (simp add: np_diag_def divide_inverse algebra_simps)
  have q: "quadratic_form (map2 (-) ?xs ?ms) ?S = quadratic_form (map2 (-) x ?mu) ?A"
    by (rule quadratic_form_scale_rc[OF sq lw wpos vi])
  have m1: "mvn_logpdf ?xs ?ms ?S
      = Inr (- (real ?n * ln (2 * pi) + ln (det ?S) + quadratic_form (map2 (-) x ?mu) ?A) / 2)"
  proof -
    have ls: "length ?S = ?n" using lw by simp
    have g: "\<not> (length ?xs \<noteq> ?n \<or> length ?ms \<noteq> ?n \<or> \<not> positive_definite ?S)"
      using pdS lx lm le by simp
    show ?thesis unfolding mvn_logpdf_def ls q if_not_P[OF g] ..
  qed
  have m2: "mvn_logpdf x ?mu ?A
      = Inr (- (real ?n * ln (2 * pi) + ln (det ?A) + quadratic_form (map2 (-) x ?mu) ?A) / 2)"
    using pd lx lm by (simp add: mvn_logpdf_def)
  have lg: "math_log (fl_div (Fin (det ?S)) (Fin (det ?A))) = Inr (Fin (ln (det ?S) - ln (det ?A)))"
    using dA dS by (simp add: ln_div)
  have h1: "fl_add (Fin a) (fl_div (Fin b) (Fin 2)) = Fin (a + b / 2)" for a b
    by simp
  have "MultivariateNormal_logpdf self x
      = Inr (Fin (- (real ?n * ln (2 * pi) + ln (det ?S) + quadratic_form (map2 (-) x ?mu) ?A) / 2
                  + (ln (det ?S) - ln (det ?A)) / 2))"
    unfolding MultivariateNormal_logpdf_def Let_def d1 d2 d3 bindE_def
    by (simp only: sum.case m1 lg h1 dg not_True_eq_False if_False)
  also have "\<dots> = Inr (Fin (- (real ?n * ln (2 * pi) + ln (det ?A)
                               + quadratic_form (map2 (-) x ?mu) ?A) / 2))"
    by (simp add: field_simps)
  finally show ?thesis by (simp add: m2 bindE_def)
qed

lemma positive_definite_example: "positive_definite [[4, 2], [2, 9]]"
  by (simp add: positive_definite_def square_def symmetric_def leading_def delete_at_def
      upt_rec numeral_2_eq_2)

lemma positive_diagonal_example: "list_all (\<lambda>a. 0 < a) (np_diag [[4, 2], [2, 9]])"
  by (simp add: np_diag_def upt_rec numeral_2_eq_2)

lemma mvn_logpdf_example:
  "mvn_logpdf [0, 0] [1, 2] [[4, 2], [2, 9]] = Inr (- (2 * ln (2 * pi) + ln 32 + 17 / 32) / 2)"
  using positive_definite_example
  by (simp add: mvn_logpdf_def quadratic_form_def inverse_entry_def minor_def delete_at_def
      upt_rec numeral_2_eq_2)

text \<open>
  The covariance \<open>[[4, 2], [2, 9]]\<close> with mean \<open>[1, 2]\<close> at the point \<open>[0, 0]\<close>: both
  computations give \<open>- (2 ln (2 pi) + ln 32 + 17/32) / 2\<close>.
\<close>

theorem C4_rescaled_logpdf_is_direct_logpdf_witness:
  "positive_definite [[4, 2], [2, 9]]
   \<and> list_all (\<lambda>a. 0 < a) (np_diag [[4, 2], [2, 9]])
   \<and> MultivariateNormal_logpdf
        \<lparr>central_value = [1, 2], support = None, covariance = [[4, 2], [2, 9]]\<rparr> [0, 0]
       = bindE (mvn_logpdf [0, 0] [1, 2] [[4, 2], [2, 9]]) (\<lambda>v. Inr (Fin v))
   \<and> \<not> isl (MultivariateNormal_logpdf
        \<lparr>central_value = [1, 2], support = None, covariance = [[4, 2], [2, 9]]\<rparr> [0, 0])
   \<and> mvn_logpdf [0, 0] [1, 2] [[4, 2], [2, 9]]
       = Inr (- (2 * ln (2 * pi) + ln 32 + 17 / 32) / 2)"
proof -
  let ?d = "\<lparr>central_value = [1, 2], support = None, covariance = [[4, 2], [2, 9]]\<rparr>
              :: MultivariateNormalDistribution"
  have p: "positive_definite (covariance ?d)" by (simp add: positive_definite_example)
  have g: "list_all (\<lambda>a. 0 < a) (np_diag (covariance ?d))" by (simp add: positive_diagonal_example)
  have t: "MultivariateNormal_logpdf ?d [0, 0]
             = bindE (mvn_logpdf [0, 0] (central_value ?d) (covariance ?d)) (\<lambda>v. Inr (Fin v))
           \<and> \<not> isl (MultivariateNormal_logpdf ?d [0, 0])"
    by (rule C4_rescaled_logpdf_is_direct_logpdf[OF p g]) simp_all
  have c: "central_value ?d = [1, 2]" "covariance ?d = [[4, 2], [2, 9]]" by simp_all
  show ?thesis
    using t positive_definite_example positive_diagonal_example mvn_logpdf_example
    unfolding c by blast
qed

end
